theory Spec2Isabelle
  imports Main
begin

section \<open>The credential store\<close>

text \<open>
  The table \<open>nodered_users\<close> of the README's schema: \<open>username VARCHAR(100) UNIQUE NOT
  NULL\<close>, \<open>password TEXT\<close> (nullable) and \<open>permissions TEXT NOT NULL\<close>. The columns the
  code never reads (\<open>id\<close>, \<open>created_at\<close>, \<open>updated_at\<close>, \<open>status\<close>) are left out. A
  string is a list of bytes, as PostgreSQL stores it; SQL \<open>NULL\<close> is \<open>None\<close>. The table is
  the list of its rows; that \<open>username\<close> is \<open>UNIQUE\<close> is the predicate \<open>unique_usernames\<close>,
  assumed only where a property needs it.
\<close>

record row =
  username :: string
  password :: "string option"
  permissions :: string

type_synonym table = "row list"

definition unique_usernames :: "table \<Rightarrow> bool" where
  "unique_usernames tbl = distinct (map username tbl)"

text \<open>The object \<open>{ username, permissions }\<close> both operations return; \<open>null\<close> is \<open>None\<close>.\<close>

datatype user_info = UserInfo string string

text \<open>
  Every call that leaves the process may throw: the four queries, the two bcrypt calls of
  \<open>hashPassword\<close>, the one of \<open>comparePassword\<close>, and \<open>encrypt\<close>. A call of \<open>authenticate\<close> or
  \<open>users\<close> is run against a set of steps that fail in this run; the empty set is the run
  without fault. A step fails by throwing, or rejecting, with an \<open>Error\<close> inside the \<open>try\<close>
  of the call; the failures that do not take this way are in the section on the faults
  that no \<open>try\<close> sees.
\<close>

datatype step =
  UsersSelect | FirstSelect | GenSalt | Hash | Update | SecondSelect | Compare | Encrypt

datatype error = StoreError step | CryptoError step

text \<open>
  What \<open>console.error\<close> and \<open>logError\<close> print is not part of the model, nor is the start
  of the module (the check of the configuration, the creation of the pool).
\<close>

text \<open>\<open>SELECT * FROM nodered_users WHERE username=$1\<close>\<close>

definition select_where_username :: "table \<Rightarrow> string \<Rightarrow> row list" where
  "select_where_username tbl u = filter (\<lambda>r. username r = u) tbl"

text \<open>\<open>UPDATE nodered_users SET password=$1 WHERE username=$2\<close>\<close>

definition update_password :: "table \<Rightarrow> string \<Rightarrow> string \<Rightarrow> table" where
  "update_password tbl pw u =
     map (\<lambda>r. if username r = u then r\<lparr>password := Some pw\<rparr> else r) tbl"

text \<open>
  \<open>pool.query\<close> (\<open>globalClient.query\<close> in the single-connection variant) with a
  \<open>SELECT\<close>: the rows, or the fault of this step. A \<open>SELECT\<close> leaves the table as it is.
\<close>

definition query_select :: "step set \<Rightarrow> step \<Rightarrow> table \<Rightarrow> string \<Rightarrow> error + row list" where
  "query_select F s tbl u =
     (if s \<in> F then Inl (StoreError s) else Inr (select_where_username tbl u))"

text \<open>\<open>pool.query\<close> with the \<open>UPDATE\<close>: the new table, or the fault, which writes nothing.\<close>

definition query_update :: "step set \<Rightarrow> table \<Rightarrow> string \<Rightarrow> string \<Rightarrow> error + table" where
  "query_update F tbl pw u =
     (if Update \<in> F then Inl (StoreError Update) else Inr (update_password tbl pw u))"

text \<open>
  JavaScript's \<open>!user.password\<close> on a nullable text column: true for \<open>null\<close> and for the
  empty string.
\<close>

definition js_not :: "string option \<Rightarrow> bool" where
  "js_not v = (case v of None \<Rightarrow> True | Some s \<Rightarrow> s = [])"

section \<open>The lookup \<open>users\<close>\<close>

text \<open>
  \<open>users\<close> is the same function in all four variants (customAuth.js, lines 80-98). Its
  query selects the columns \<open>username, permissions\<close>. The result is paired with the table
  after the call.
\<close>

definition users_try :: "step set \<Rightarrow> table \<Rightarrow> string \<Rightarrow> error + user_info option" where
  "users_try F tbl u =
     (case query_select F UsersSelect tbl u of
        Inl e \<Rightarrow> Inl e
      | Inr rows \<Rightarrow>
          (case map (\<lambda>r. (username r, permissions r)) rows of
             [] \<Rightarrow> Inr None
           | user # _ \<Rightarrow> Inr (Some (UserInfo (fst user) (snd user)))))"

definition users :: "step set \<Rightarrow> table \<Rightarrow> string \<Rightarrow> user_info option \<times> table" where
  "users F tbl u =
     (case users_try F tbl u of
        Inl e \<Rightarrow> (None, tbl)
      | Inr res \<Rightarrow> (res, tbl))"

section \<open>The salted-hash variant (customAuth.js)\<close>

text \<open>
  The bcrypt package is not part of the repository: its three functions the code calls are
  parameters. \<open>genSalt\<close> draws a random salt; the randomness of one call is the argument
  \<open>'r\<close>.
\<close>

record 'r bcrypt =
  bcrypt_genSalt :: "nat \<Rightarrow> 'r \<Rightarrow> string"
  bcrypt_hash :: "string \<Rightarrow> string \<Rightarrow> string"
  bcrypt_compare :: "string \<Rightarrow> string \<Rightarrow> bool"

definition SALT_ROUNDS :: nat where
  "SALT_ROUNDS = 10"

text \<open>
  \<open>config.security.salt || 'default_salt_value'\<close>: config.js is not in the sources, so
  the configured salt is a parameter; an absent or empty one gives the default. (The
  first unnamed source file is this module without the static salt: it hashes and
  compares the password itself.)
\<close>

definition STATIC_SALT :: "string option \<Rightarrow> string" where
  "STATIC_SALT cfg = (if js_not cfg then ''default_salt_value'' else the cfg)"

definition hashPassword ::
  "'r bcrypt \<Rightarrow> string option \<Rightarrow> step set \<Rightarrow> 'r \<Rightarrow> string \<Rightarrow> error + string" where
  "hashPassword lib cfg F rnd plainString =
     (let saltedPassword = plainString @ STATIC_SALT cfg in
      if GenSalt \<in> F then Inl (CryptoError GenSalt)
      else
        let salt = bcrypt_genSalt lib SALT_ROUNDS rnd in
        if Hash \<in> F then Inl (CryptoError Hash)
        else Inr (bcrypt_hash lib saltedPassword salt))"

definition comparePassword ::
  "'r bcrypt \<Rightarrow> string option \<Rightarrow> step set \<Rightarrow> string \<Rightarrow> string \<Rightarrow> error + bool" where
  "comparePassword lib cfg F plainString hash =
     (let saltedPassword = plainString @ STATIC_SALT cfg in
      if Compare \<in> F then Inl (CryptoError Compare)
      else Inr (bcrypt_compare lib saltedPassword hash))"

text \<open>
  The body of \<open>authenticate\<close>'s \<open>try\<close> (customAuth.js, lines 107-144): the value returned
  or the error thrown, and the table at that moment.
\<close>

definition authenticate_try ::
  "'r bcrypt \<Rightarrow> string option \<Rightarrow> step set \<Rightarrow> 'r \<Rightarrow> table \<Rightarrow> string \<Rightarrow> string
     \<Rightarrow> (error + user_info option) \<times> table" where
  "authenticate_try lib cfg F rnd tbl u pw =
     (case query_select F FirstSelect tbl u of
        Inl e \<Rightarrow> (Inl e, tbl)
      | Inr rows \<Rightarrow>
          (case rows of
             [] \<Rightarrow> (Inr None, tbl)
           | user # _ \<Rightarrow>
               if js_not (password user) then
                 (case hashPassword lib cfg F rnd pw of
                    Inl e \<Rightarrow> (Inl e, tbl)
                  | Inr hashedPassword \<Rightarrow>
                      (case query_update F tbl hashedPassword u of
                         Inl e \<Rightarrow> (Inl e, tbl)
                       | Inr tbl' \<Rightarrow>
                           (case query_select F SecondSelect tbl' u of
                              Inl e \<Rightarrow> (Inl e, tbl')
                            | Inr rows' \<Rightarrow>
                                (case rows' of
                                   [] \<Rightarrow> (Inr None, tbl')
                                 | updatedUser # _ \<Rightarrow>
                                     (Inr (Some (UserInfo (username updatedUser)
                                                          (permissions updatedUser))), tbl')))))
               else
                 (case comparePassword lib cfg F pw (the (password user)) of
                    Inl e \<Rightarrow> (Inl e, tbl)
                  | Inr isPasswordValid \<Rightarrow>
                      if isPasswordValid
                      then (Inr (Some (UserInfo (username user) (permissions user))), tbl)
                      else (Inr None, tbl))))"

text \<open>The \<open>catch\<close> (lines 145-148): the error is logged and the call returns \<open>null\<close>.\<close>

definition authenticate ::
  "'r bcrypt \<Rightarrow> string option \<Rightarrow> step set \<Rightarrow> 'r \<Rightarrow> table \<Rightarrow> string \<Rightarrow> string
     \<Rightarrow> user_info option \<times> table" where
  "authenticate lib cfg F rnd tbl u pw =
     (case authenticate_try lib cfg F rnd tbl u pw of
        (Inl e, tbl') \<Rightarrow> (None, tbl')
      | (Inr res, tbl') \<Rightarrow> (res, tbl'))"

section \<open>The deterministic-cipher variant\<close>

text \<open>
  Node's \<open>crypto\<close> module is a parameter as well: \<open>createCipheriv\<close> gives, for an
  algorithm, a key and an initialisation vector, the function from the plain bytes to
  \<open>update\<close> followed by \<open>final\<close>; \<open>base64\<close> is \<open>toString("base64")\<close>.
\<close>

record crypto =
  createCipheriv :: "string \<Rightarrow> string \<Rightarrow> string \<Rightarrow> string \<Rightarrow> string"
  base64 :: "string \<Rightarrow> string"

definition encrypt :: "crypto \<Rightarrow> string \<Rightarrow> string \<Rightarrow> string \<Rightarrow> string" where
  "encrypt lib plainString AesKey AesIV =
     base64 lib (createCipheriv lib ''aes-256-cbc'' AesKey AesIV plainString)"

text \<open>
  \<open>authenticate\<close> of the second and third unnamed source files (pooled and single
  connection; the statements are the same, the third resolves a promise where the second
  returns). The password is encrypted before the first query.
\<close>

definition authenticate_cipher_try ::
  "crypto \<Rightarrow> string \<Rightarrow> string \<Rightarrow> step set \<Rightarrow> table \<Rightarrow> string \<Rightarrow> string
     \<Rightarrow> (error + user_info option) \<times> table" where
  "authenticate_cipher_try lib key ivBuffer F tbl u pw =
     (if Encrypt \<in> F then (Inl (CryptoError Encrypt), tbl)
      else
        let encryptedData = encrypt lib pw key ivBuffer in
        (case query_select F FirstSelect tbl u of
           Inl e \<Rightarrow> (Inl e, tbl)
         | Inr rows \<Rightarrow>
             (case rows of
                [] \<Rightarrow> (Inr None, tbl)
              | user # _ \<Rightarrow>
                  if js_not (password user) then
                    (case query_update F tbl encryptedData u of
                       Inl e \<Rightarrow> (Inl e, tbl)
                     | Inr tbl' \<Rightarrow>
                         (case query_select F SecondSelect tbl' u of
                            Inl e \<Rightarrow> (Inl e, tbl')
                          | Inr rows' \<Rightarrow>
                              (case rows' of
                                 [] \<Rightarrow> (Inr None, tbl')
                               | updatedUser # _ \<Rightarrow>
                                   (Inr (Some (UserInfo (username updatedUser)
                                                        (permissions updatedUser))), tbl'))))
                  else if password user = Some encryptedData
                  then (Inr (Some (UserInfo (username user) (permissions user))), tbl)
                  else (Inr None, tbl))))"

definition authenticate_cipher ::
  "crypto \<Rightarrow> string \<Rightarrow> string \<Rightarrow> step set \<Rightarrow> table \<Rightarrow> string \<Rightarrow> string
     \<Rightarrow> user_info option \<times> table" where
  "authenticate_cipher lib key ivBuffer F tbl u pw =
     (case authenticate_cipher_try lib key ivBuffer F tbl u pw of
        (Inl e, tbl') \<Rightarrow> (None, tbl')
      | (Inr res, tbl') \<Rightarrow> (res, tbl'))"

section \<open>What the libraries are assumed to do\<close>

text \<open>
  The contract of the bcrypt package, for salts that \<open>genSalt\<close> produced: \<open>hash\<close> gives a
  non-empty string, and \<open>compare\<close> accepts the data a hash was made from.
\<close>

definition bcrypt_sound :: "'r bcrypt \<Rightarrow> bool" where
  "bcrypt_sound lib =
     (\<forall>data n rnd.
        bcrypt_hash lib data (bcrypt_genSalt lib n rnd) \<noteq> [] \<and>
        bcrypt_compare lib data (bcrypt_hash lib data (bcrypt_genSalt lib n rnd)))"

text \<open>The cipher gives a non-empty text for every input; it can be decrypted (injective).\<close>

definition encrypt_nonempty :: "crypto \<Rightarrow> string \<Rightarrow> string \<Rightarrow> bool" where
  "encrypt_nonempty lib key iv = (\<forall>p. encrypt lib p key iv \<noteq> [])"

definition encrypt_injective :: "crypto \<Rightarrow> string \<Rightarrow> string \<Rightarrow> bool" where
  "encrypt_injective lib key iv =
     (\<forall>p q. (encrypt lib p key iv = encrypt lib q key iv) = (p = q))"

section \<open>The steps of a call\<close>

text \<open>
  The steps a call of \<open>authenticate\<close> goes through when none of them fails, read off the
  branches of the code: the first query; for a row whose password is \<open>null\<close> or empty the
  derivation, the \<open>UPDATE\<close> and the second query; otherwise the comparison. The cipher
  variant encrypts first and compares with \<open>===\<close>, which cannot throw.
\<close>

definition steps_of_authenticate :: "table \<Rightarrow> string \<Rightarrow> step set" where
  "steps_of_authenticate tbl u =
     (case select_where_username tbl u of
        [] \<Rightarrow> {FirstSelect}
      | user # _ \<Rightarrow>
          if js_not (password user) then {FirstSelect, GenSalt, Hash, Update, SecondSelect}
          else {FirstSelect, Compare})"

definition steps_of_authenticate_cipher :: "table \<Rightarrow> string \<Rightarrow> step set" where
  "steps_of_authenticate_cipher tbl u =
     (case select_where_username tbl u of
        [] \<Rightarrow> {Encrypt, FirstSelect}
      | user # _ \<Rightarrow>
          if js_not (password user) then {Encrypt, FirstSelect, Update, SecondSelect}
          else {Encrypt, FirstSelect})"

section \<open>Faults that no \<open>try\<close> sees\<close>

text \<open>
  The set of failing steps above covers the faults that reach a call as the rejection of
  something it awaits inside its \<open>try\<close>: a query, \<open>genSalt\<close>, \<open>hash\<close>, \<open>compare\<close>,
  \<open>encrypt\<close>. The source lets three other kinds of failure through:
  \<^item> the single-connection module (the third unnamed source file, line 18) calls
    \<open>globalClient.connect()\<close> when it is loaded and neither awaits the promise nor handles
    its rejection; the pooled modules connect inside \<open>pool.query\<close>, where a failure to
    connect is the rejection of the query;
  \<^item> no module registers an \<open>'error'\<close> listener, on the client or on the pool, so an
    error the connection raises by itself is an event without a handler;
  \<^item> every \<open>catch\<close> reads \<open>error.stack\<close> (\<open>logError\<close>, and the \<open>console.error\<close> calls of
    the cipher modules), which throws when the value caught is \<open>null\<close> or \<open>undefined\<close>.
  Node ends the process on an unhandled rejection and on an \<open>'error'\<close> event without a
  listener, and the promise of a pending call is then never settled. An exception in the
  \<open>catch\<close> of an \<open>async\<close> function rejects its promise; in the single-connection module
  the \<open>catch\<close> runs inside the executor of \<open>new Promise\<close>, whose rejection nothing handles.
\<close>

datatype 'a settled = Resolved 'a | Rejected | ProcessExit

record runtime =
  connect_rejected :: bool
  error_event :: bool
  caught_nullish :: bool

definition healthy :: runtime where
  "healthy = \<lparr>connect_rejected = False, error_event = False, caught_nullish = False\<rparr>"

text \<open>
  What the caller of a pooled module gets from the outcome of the \<open>try\<close>: customAuth.js
  (\<open>authenticate_served\<close>, \<open>users_served\<close>) and the second unnamed source file
  (\<open>authenticate_cipher_served\<close>).
\<close>

definition pooled ::
  "runtime \<Rightarrow> (error + user_info option) \<times> table \<Rightarrow> (user_info option \<times> table) settled" where
  "pooled rt body =
     (if error_event rt then ProcessExit
      else
        (case body of
           (Inl e, tbl') \<Rightarrow> if caught_nullish rt then Rejected else Resolved (None, tbl')
         | (Inr res, tbl') \<Rightarrow> Resolved (res, tbl')))"

definition authenticate_served ::
  "runtime \<Rightarrow> 'r bcrypt \<Rightarrow> string option \<Rightarrow> step set \<Rightarrow> 'r \<Rightarrow> table \<Rightarrow> string \<Rightarrow> string
     \<Rightarrow> (user_info option \<times> table) settled" where
  "authenticate_served rt lib cfg F rnd tbl u pw = pooled rt (authenticate_try lib cfg F rnd tbl u pw)"

definition authenticate_cipher_served ::
  "runtime \<Rightarrow> crypto \<Rightarrow> string \<Rightarrow> string \<Rightarrow> step set \<Rightarrow> table \<Rightarrow> string \<Rightarrow> string
     \<Rightarrow> (user_info option \<times> table) settled" where
  "authenticate_cipher_served rt lib key ivBuffer F tbl u pw =
     pooled rt (authenticate_cipher_try lib key ivBuffer F tbl u pw)"

definition users_served ::
  "runtime \<Rightarrow> step set \<Rightarrow> table \<Rightarrow> string \<Rightarrow> (user_info option \<times> table) settled" where
  "users_served rt F tbl u = pooled rt (users_try F tbl u, tbl)"

text \<open>
  The same for the single-connection module (the third unnamed source file): its
  \<open>authenticate\<close> is the body of the cipher variant inside \<open>new Promise\<close>, its \<open>users\<close> an
  \<open>async\<close> function; both use the one client the module connected when it was loaded.
\<close>

definition authenticate_client_served ::
  "runtime \<Rightarrow> crypto \<Rightarrow> string \<Rightarrow> string \<Rightarrow> step set \<Rightarrow> table \<Rightarrow> string \<Rightarrow> string
     \<Rightarrow> (user_info option \<times> table) settled" where
  "authenticate_client_served rt lib key ivBuffer F tbl u pw =
     (if connect_rejected rt \<or> error_event rt then ProcessExit
      else
        (case authenticate_cipher_try lib key ivBuffer F tbl u pw of
           (Inl e, tbl') \<Rightarrow> if caught_nullish rt then ProcessExit else Resolved (None, tbl')
         | (Inr res, tbl') \<Rightarrow> Resolved (res, tbl')))"

definition users_client_served ::
  "runtime \<Rightarrow> step set \<Rightarrow> table \<Rightarrow> string \<Rightarrow> (user_info option \<times> table) settled" where
  "users_client_served rt F tbl u =
     (if connect_rejected rt \<or> error_event rt then ProcessExit
      else
        (case users_try F tbl u of
           Inl e \<Rightarrow> if caught_nullish rt then Rejected else Resolved (None, tbl)
         | Inr res \<Rightarrow> Resolved (res, tbl)))"

section \<open>Instances of the libraries, to evaluate the code at concrete inputs\<close>

text \<open>
  Instances of the bcrypt interface that keep what the package documents about the shape
  of its results: a salt is 29 characters (the version, the cost and 22 characters of
  random material); a hash is its salt followed by the digest; \<open>compare\<close> hashes the data
  again under the salt of the hash it is given; and only the first 72 bytes of the data
  are used, any further byte is ignored when a password is matched. The Blowfish digest
  of the salt and of those 72 bytes is the parameter \<open>digest\<close>; \<open>bcrypt72\<close> takes the 72
  bytes themselves for it, which has no collision.
\<close>

definition decimal2 :: "nat \<Rightarrow> string" where
  "decimal2 n = [''0123456789'' ! (n div 10 mod 10), ''0123456789'' ! (n mod 10)]"

definition bcrypt_of :: "(string \<Rightarrow> string \<Rightarrow> string) \<Rightarrow> string bcrypt" where
  "bcrypt_of digest =
     \<lparr>bcrypt_genSalt =
        (\<lambda>rounds rnd. ''$2b$'' @ decimal2 rounds @ ''$'' @ take 22 (rnd @ replicate 22 CHR ''.'')),
      bcrypt_hash = (\<lambda>data salt. salt @ digest salt (take 72 data)),
      bcrypt_compare =
        (\<lambda>data hash. 29 \<le> length hash
           \<and> hash = take 29 hash @ digest (take 29 hash) (take 72 data))\<rparr>"

definition bcrypt72 :: "string bcrypt" where
  "bcrypt72 = bcrypt_of (\<lambda>salt bytes. bytes)"

text \<open>
  An instance of the cipher interface: an injective function with non-empty results,
  standing in for AES-256-CBC and base64.
\<close>

definition plain_crypto :: crypto where
  "plain_crypto =
     \<lparr>createCipheriv = (\<lambda>algorithm key iv plain. iv @ plain),
      base64 = (\<lambda>bytes. bytes @ ''='')\<rparr>"

text \<open>The store of the spec's scenario: alice may read and has no secret yet.\<close>

definition alice :: row where
  "alice = \<lparr>username = ''alice'', password = None, permissions = ''read''\<rparr>"

section \<open>Helper lemmas\<close>

subsection \<open>The table\<close>

lemma select_unique:
  assumes "unique_usernames tbl" and "r \<in> set tbl"
  shows "select_where_username tbl (username r) = [r]"
  using assms unfolding unique_usernames_def select_where_username_def
proof (induction tbl)
  case Nil
  then show ?case by simp
next
  case (Cons a tbl)
  show ?case
  proof (cases "a = r")
    case True
    have "username r \<notin> set (map username tbl)"
      using Cons.prems(1) True by simp
    then have "\<forall>x \<in> set tbl. username x \<noteq> username r"
      by (metis imageI set_map)
    then have "filter (\<lambda>x. username x = username r) tbl = []"
      by (simp add: filter_empty_conv)
    with True show ?thesis by simp
  next
    case False
    with Cons.prems have rin: "r \<in> set tbl" by simp
    with Cons.prems(1) have "username a \<noteq> username r" by auto
    with Cons.IH Cons.prems(1) rin show ?thesis by simp
  qed
qed

lemma select_none:
  assumes "u \<notin> username ` set tbl"
  shows "select_where_username tbl u = []"
  using assms unfolding select_where_username_def
  by (auto simp: filter_empty_conv)

lemma select_empty_iff: "(select_where_username tbl u = []) = (u \<notin> username ` set tbl)"
  unfolding select_where_username_def by (auto simp: filter_empty_conv)

lemma select_head_username:
  assumes "select_where_username tbl u = user # rest"
  shows "username user = u"
proof -
  have "user \<in> set (filter (\<lambda>r. username r = u) tbl)"
    using assms unfolding select_where_username_def by simp
  then show ?thesis by simp
qed

lemma select_head_member:
  assumes "select_where_username tbl u = user # rest"
  shows "user \<in> set tbl"
proof -
  have "user \<in> set (filter (\<lambda>r. username r = u) tbl)"
    using assms unfolding select_where_username_def by simp
  then show ?thesis by simp
qed

lemma select_update:
  "select_where_username (update_password tbl h u) v
     = update_password (select_where_username tbl v) h u"
  unfolding select_where_username_def update_password_def
  by (induction tbl) auto

lemma usernames_update: "map username (update_password tbl h u) = map username tbl"
  unfolding update_password_def by (induction tbl) auto

lemma update_single:
  "update_password [r] h (username r) = [r\<lparr>password := Some h\<rparr>]"
  unfolding update_password_def by simp

lemma select_after_update:
  assumes "unique_usernames tbl" and "r \<in> set tbl"
  shows "select_where_username (update_password tbl h (username r)) (username r)
           = [r\<lparr>password := Some h\<rparr>]"
  by (simp add: select_update select_unique [OF assms] update_single)

lemma length_update: "length (update_password tbl h u) = length tbl"
  by (simp add: update_password_def)

lemma update_nth_other:
  assumes "i < length tbl" and "username (tbl ! i) \<noteq> u"
  shows "update_password tbl h u ! i = tbl ! i"
  using assms by (simp add: update_password_def)

lemma columns_update:
  "map (\<lambda>r. (username r, permissions r)) (update_password tbl h u)
     = map (\<lambda>r. (username r, permissions r)) tbl"
  unfolding update_password_def by (induction tbl) auto

lemma others_update:
  "filter (\<lambda>r. username r \<noteq> u) (update_password tbl h u) = filter (\<lambda>r. username r \<noteq> u) tbl"
  unfolding update_password_def by (induction tbl) auto

subsection \<open>The cases of \<open>users\<close> and \<open>authenticate\<close>, under any faults\<close>

lemma js_not_cases:
  "js_not v \<or> (\<exists>stored. v = Some stored \<and> stored \<noteq> [])"
  by (cases v) (simp_all add: js_not_def)

lemma users_result:
  "users F tbl u =
     (if UsersSelect \<in> F then None
      else (case select_where_username tbl u of
              [] \<Rightarrow> None
            | user # _ \<Rightarrow> Some (UserInfo u (permissions user))), tbl)"
proof (cases "select_where_username tbl u")
  case Nil
  then show ?thesis by (simp add: users_def users_try_def query_select_def)
next
  case (Cons user rest)
  then show ?thesis
    using select_head_username [OF Cons]
    by (simp add: users_def users_try_def query_select_def)
qed

lemma authenticate_empty:
  assumes "select_where_username tbl u = []"
  shows "authenticate lib cfg F rnd tbl u pw = (None, tbl)"
  using assms by (simp add: authenticate_def authenticate_try_def query_select_def)

lemma authenticate_cipher_empty:
  assumes "select_where_username tbl u = []"
  shows "authenticate_cipher lib key iv F tbl u pw = (None, tbl)"
  using assms
  by (simp add: authenticate_cipher_def authenticate_cipher_try_def query_select_def Let_def)

lemma authenticate_absent:
  assumes "select_where_username tbl u = user # rest" and "js_not (password user)"
  shows "authenticate lib cfg F rnd tbl u pw =
           (if FirstSelect \<in> F \<or> GenSalt \<in> F \<or> Hash \<in> F \<or> Update \<in> F then (None, tbl)
            else if SecondSelect \<in> F
            then (None, update_password tbl
                    (bcrypt_hash lib (pw @ STATIC_SALT cfg) (bcrypt_genSalt lib SALT_ROUNDS rnd)) u)
            else (Some (UserInfo u (permissions user)),
                  update_password tbl
                    (bcrypt_hash lib (pw @ STATIC_SALT cfg) (bcrypt_genSalt lib SALT_ROUNDS rnd)) u))"
proof -
  have "select_where_username (update_password tbl h u) u
          = user\<lparr>password := Some h\<rparr> # update_password rest h u" for h
    using assms(1) select_head_username [OF assms(1)]
    by (simp add: select_update) (simp add: update_password_def)
  with assms select_head_username [OF assms(1)] show ?thesis
    by (simp add: authenticate_def authenticate_try_def query_select_def query_update_def
        hashPassword_def Let_def)
qed

lemma authenticate_cipher_absent:
  assumes "select_where_username tbl u = user # rest" and "js_not (password user)"
  shows "authenticate_cipher lib key iv F tbl u pw =
           (if Encrypt \<in> F \<or> FirstSelect \<in> F \<or> Update \<in> F then (None, tbl)
            else if SecondSelect \<in> F
            then (None, update_password tbl (encrypt lib pw key iv) u)
            else (Some (UserInfo u (permissions user)),
                  update_password tbl (encrypt lib pw key iv) u))"
proof -
  have "select_where_username (update_password tbl h u) u
          = user\<lparr>password := Some h\<rparr> # update_password rest h u" for h
    using assms(1) select_head_username [OF assms(1)]
    by (simp add: select_update) (simp add: update_password_def)
  with assms select_head_username [OF assms(1)] show ?thesis
    by (simp add: authenticate_cipher_def authenticate_cipher_try_def query_select_def
        query_update_def Let_def)
qed

lemma authenticate_present:
  assumes "select_where_username tbl u = user # rest" and "password user = Some stored"
    and "stored \<noteq> []"
  shows "authenticate lib cfg F rnd tbl u pw =
           (if FirstSelect \<in> F \<or> Compare \<in> F then None
            else if bcrypt_compare lib (pw @ STATIC_SALT cfg) stored
            then Some (UserInfo u (permissions user)) else None, tbl)"
  using assms select_head_username [OF assms(1)]
  by (simp add: authenticate_def authenticate_try_def query_select_def comparePassword_def
      js_not_def Let_def)

lemma authenticate_cipher_present:
  assumes "select_where_username tbl u = user # rest" and "password user = Some stored"
    and "stored \<noteq> []"
  shows "authenticate_cipher lib key iv F tbl u pw =
           (if Encrypt \<in> F \<or> FirstSelect \<in> F then None
            else if stored = encrypt lib pw key iv
            then Some (UserInfo u (permissions user)) else None, tbl)"
  using assms select_head_username [OF assms(1)]
  by (simp add: authenticate_cipher_def authenticate_cipher_try_def query_select_def
      js_not_def Let_def)

subsection \<open>The table after a call, and the steps that matter\<close>

lemma authenticate_post:
  "snd (authenticate lib cfg F rnd tbl u pw) = tbl
   \<or> (\<exists>user rest. select_where_username tbl u = user # rest \<and> js_not (password user)
        \<and> snd (authenticate lib cfg F rnd tbl u pw)
            = update_password tbl
                (bcrypt_hash lib (pw @ STATIC_SALT cfg) (bcrypt_genSalt lib SALT_ROUNDS rnd)) u)"
proof (cases "select_where_username tbl u")
  case Nil
  then show ?thesis by (simp add: authenticate_empty)
next
  case (Cons user rest)
  show ?thesis
  proof (cases "js_not (password user)")
    case True
    show ?thesis
      using Cons True by (simp add: authenticate_absent [OF Cons True])
  next
    case False
    then obtain stored where st: "password user = Some stored" "stored \<noteq> []"
      using js_not_cases by blast
    show ?thesis
      by (simp add: authenticate_present [OF Cons st])
  qed
qed

lemma authenticate_cipher_post:
  "snd (authenticate_cipher lib key iv F tbl u pw) = tbl
   \<or> (\<exists>user rest. select_where_username tbl u = user # rest \<and> js_not (password user)
        \<and> snd (authenticate_cipher lib key iv F tbl u pw)
            = update_password tbl (encrypt lib pw key iv) u)"
proof (cases "select_where_username tbl u")
  case Nil
  then show ?thesis by (simp add: authenticate_cipher_empty)
next
  case (Cons user rest)
  show ?thesis
  proof (cases "js_not (password user)")
    case True
    show ?thesis
      using Cons True by (simp add: authenticate_cipher_absent [OF Cons True])
  next
    case False
    then obtain stored where st: "password user = Some stored" "stored \<noteq> []"
      using js_not_cases by blast
    show ?thesis
      by (simp add: authenticate_cipher_present [OF Cons st])
  qed
qed

lemma update_keeps_present:
  assumes "unique_usernames tbl" and "i < length tbl" and "\<not> js_not (password (tbl ! i))"
    and "select_where_username tbl u = user # rest" and "js_not (password user)"
  shows "update_password tbl h u ! i = tbl ! i"
proof -
  have "username (tbl ! i) \<noteq> u"
  proof
    assume same: "username (tbl ! i) = u"
    have "tbl ! i \<in> set tbl" using assms(2) by simp
    from select_unique [OF assms(1) this] same assms(4) have "user = tbl ! i" by simp
    with assms(3,5) show False by simp
  qed
  with assms(2) show ?thesis by (rule update_nth_other)
qed

lemma steps_are_the_path:
  assumes "steps_of_authenticate tbl u \<inter> F = {}"
  shows "authenticate lib cfg F rnd tbl u pw = authenticate lib cfg {} rnd tbl u pw"
proof (cases "select_where_username tbl u")
  case Nil
  then show ?thesis by (simp add: authenticate_empty)
next
  case (Cons user rest)
  show ?thesis
  proof (cases "js_not (password user)")
    case True
    with assms Cons have "FirstSelect \<notin> F" "GenSalt \<notin> F" "Hash \<notin> F" "Update \<notin> F"
        "SecondSelect \<notin> F"
      by (auto simp: steps_of_authenticate_def)
    then show ?thesis
      by (simp add: authenticate_absent [OF Cons True])
  next
    case False
    then obtain stored where st: "password user = Some stored" "stored \<noteq> []"
      using js_not_cases by blast
    from assms Cons False have "FirstSelect \<notin> F" "Compare \<notin> F"
      by (auto simp: steps_of_authenticate_def)
    then show ?thesis
      by (simp add: authenticate_present [OF Cons st])
  qed
qed

lemma steps_are_the_path_cipher:
  assumes "steps_of_authenticate_cipher tbl u \<inter> F = {}"
  shows "authenticate_cipher lib key iv F tbl u pw = authenticate_cipher lib key iv {} tbl u pw"
proof -
  have nf: "Encrypt \<notin> F" "FirstSelect \<notin> F"
    using assms
    by (auto simp: steps_of_authenticate_cipher_def split: list.splits if_splits)
  show ?thesis
  proof (cases "select_where_username tbl u")
    case Nil
    then show ?thesis by (simp add: authenticate_cipher_empty)
  next
    case (Cons user rest)
    show ?thesis
    proof (cases "js_not (password user)")
      case True
      with assms Cons have "Update \<notin> F" "SecondSelect \<notin> F"
        by (auto simp: steps_of_authenticate_cipher_def)
      with nf show ?thesis
        by (simp add: authenticate_cipher_absent [OF Cons True])
    next
      case False
      then obtain stored where st: "password user = Some stored" "stored \<noteq> []"
        using js_not_cases by blast
      from nf show ?thesis
        by (simp add: authenticate_cipher_present [OF Cons st])
    qed
  qed
qed

lemma funpow_fixed: "f x = x \<Longrightarrow> (f ^^ n) x = x"
  by (induction n) simp_all

subsection \<open>Faults inside the \<open>try\<close>, and the healthy runtime\<close>

lemma authenticate_fault:
  assumes "steps_of_authenticate tbl u \<inter> F \<noteq> {}"
  shows "fst (authenticate lib cfg F rnd tbl u pw) = None"
proof (cases "select_where_username tbl u")
  case Nil
  then show ?thesis by (simp add: authenticate_empty)
next
  case (Cons user rest)
  show ?thesis
  proof (cases "js_not (password user)")
    case True
    with assms Cons have "FirstSelect \<in> F \<or> GenSalt \<in> F \<or> Hash \<in> F \<or> Update \<in> F
        \<or> SecondSelect \<in> F"
      by (auto simp: steps_of_authenticate_def)
    then show ?thesis
      by (auto simp: authenticate_absent [OF Cons True])
  next
    case False
    then obtain stored where st: "password user = Some stored" "stored \<noteq> []"
      using js_not_cases by blast
    from assms Cons False have "FirstSelect \<in> F \<or> Compare \<in> F"
      by (auto simp: steps_of_authenticate_def)
    then show ?thesis
      by (auto simp: authenticate_present [OF Cons st])
  qed
qed

lemma authenticate_cipher_fault:
  assumes "steps_of_authenticate_cipher tbl u \<inter> F \<noteq> {}"
  shows "fst (authenticate_cipher clib key iv F tbl u pw) = None"
proof (cases "select_where_username tbl u")
  case Nil
  then show ?thesis by (simp add: authenticate_cipher_empty)
next
  case (Cons user rest)
  show ?thesis
  proof (cases "js_not (password user)")
    case True
    with assms Cons have "Encrypt \<in> F \<or> FirstSelect \<in> F \<or> Update \<in> F \<or> SecondSelect \<in> F"
      by (auto simp: steps_of_authenticate_cipher_def)
    then show ?thesis
      by (auto simp: authenticate_cipher_absent [OF Cons True])
  next
    case False
    then obtain stored where st: "password user = Some stored" "stored \<noteq> []"
      using js_not_cases by blast
    from assms Cons False have "Encrypt \<in> F \<or> FirstSelect \<in> F"
      by (auto simp: steps_of_authenticate_cipher_def)
    then show ?thesis
      by (auto simp: authenticate_cipher_present [OF Cons st])
  qed
qed

lemma users_fault:
  assumes "UsersSelect \<in> F"
  shows "users F tbl u = (None, tbl)"
  using assms by (simp add: users_result)

lemma served_healthy:
  "authenticate_served healthy lib cfg F rnd tbl u pw = Resolved (authenticate lib cfg F rnd tbl u pw)"
  "authenticate_cipher_served healthy clib key iv F tbl u pw
     = Resolved (authenticate_cipher clib key iv F tbl u pw)"
  "authenticate_client_served healthy clib key iv F tbl u pw
     = Resolved (authenticate_cipher clib key iv F tbl u pw)"
  "users_served healthy F tbl u = Resolved (users F tbl u)"
  "users_client_served healthy F tbl u = Resolved (users F tbl u)"
  by (auto simp: authenticate_served_def authenticate_cipher_served_def
      authenticate_client_served_def users_served_def users_client_served_def pooled_def
      authenticate_def authenticate_cipher_def users_def healthy_def split: sum.splits prod.splits)

subsection \<open>The instances keep the contracts\<close>

lemma bcrypt_of_salt_length: "length (bcrypt_genSalt (bcrypt_of digest) n rnd) = 29"
  by (simp add: bcrypt_of_def decimal2_def)

lemma bcrypt_of_compare_hash:
  "bcrypt_compare (bcrypt_of digest) data'
       (bcrypt_hash (bcrypt_of digest) data (bcrypt_genSalt (bcrypt_of digest) n rnd))
     = (digest (bcrypt_genSalt (bcrypt_of digest) n rnd) (take 72 data')
          = digest (bcrypt_genSalt (bcrypt_of digest) n rnd) (take 72 data))"
proof -
  obtain salt where s: "bcrypt_genSalt (bcrypt_of digest) n rnd = salt" and l: "length salt = 29"
    using bcrypt_of_salt_length by blast
  have "bcrypt_compare (bcrypt_of digest) data' (bcrypt_hash (bcrypt_of digest) data salt)
          = (digest salt (take 72 data') = digest salt (take 72 data))"
    using l by (auto simp: bcrypt_of_def)
  then show ?thesis by (simp add: s)
qed

lemma bcrypt_of_sound: "bcrypt_sound (bcrypt_of digest)"
proof -
  have "bcrypt_hash (bcrypt_of digest) data (bcrypt_genSalt (bcrypt_of digest) n rnd) \<noteq> []"
    for data n rnd
    using bcrypt_of_salt_length [of digest n rnd] by (auto simp: bcrypt_of_def)
  then show ?thesis
    unfolding bcrypt_sound_def by (simp add: bcrypt_of_compare_hash)
qed

lemma bcrypt_of_ignores_the_rest:
  assumes "take 72 data' = take 72 data"
  shows "bcrypt_compare (bcrypt_of digest) data'
           (bcrypt_hash (bcrypt_of digest) data (bcrypt_genSalt (bcrypt_of digest) n rnd))"
  using assms by (simp add: bcrypt_of_compare_hash)

lemma bcrypt72_compare_hash:
  "bcrypt_compare bcrypt72 data' (bcrypt_hash bcrypt72 data (bcrypt_genSalt bcrypt72 n rnd))
     = (take 72 data' = take 72 data)"
  unfolding bcrypt72_def by (simp add: bcrypt_of_compare_hash)

lemma bcrypt72_sound: "bcrypt_sound bcrypt72"
  unfolding bcrypt72_def by (rule bcrypt_of_sound)

lemma plain_crypto_nonempty: "encrypt_nonempty plain_crypto key iv"
  by (simp add: encrypt_nonempty_def encrypt_def plain_crypto_def)

lemma plain_crypto_injective: "encrypt_injective plain_crypto key iv"
  by (simp add: encrypt_injective_def encrypt_def plain_crypto_def)

subsection \<open>Values at the concrete inputs\<close>

lemma alice_fields:
  "username alice = ''alice''" "permissions alice = ''read''" "password alice = None"
  by (simp_all add: alice_def)

lemma alice_unique: "unique_usernames [alice]"
  by (simp add: unique_usernames_def)

lemma alice_select: "select_where_username [alice] ''alice'' = [alice]"
  by (simp add: select_where_username_def alice_fields)

lemma alice_update: "update_password [alice] h ''alice'' = [alice\<lparr>password := Some h\<rparr>]"
  using update_single [of alice h] by (simp only: alice_fields)

lemma blank_select:
  "select_where_username [alice\<lparr>password := Some []\<rparr>] ''alice''
     = [alice\<lparr>password := Some []\<rparr>]"
  by (simp add: select_where_username_def alice_fields)

lemma blank_update:
  "update_password [alice\<lparr>password := Some []\<rparr>] h ''alice''
     = [alice\<lparr>password := Some h\<rparr>]"
  by (simp add: update_password_def alice_fields)

lemma hash_hunter2:
  "bcrypt_hash bcrypt72 (''hunter2'' @ STATIC_SALT None)
       (bcrypt_genSalt bcrypt72 SALT_ROUNDS ''seed'')
     = ''$2b$10$seed..................hunter2default_salt_value''"
  by code_simp

lemma hash_empty:
  "bcrypt_hash bcrypt72 ([] @ STATIC_SALT None) (bcrypt_genSalt bcrypt72 SALT_ROUNDS ''seed'')
     = ''$2b$10$seed..................default_salt_value''"
  by code_simp

lemma hash_dice:
  "bcrypt_hash bcrypt72 (''hunter2'' @ STATIC_SALT None)
       (bcrypt_genSalt bcrypt72 SALT_ROUNDS ''dice'')
     = ''$2b$10$dice..................hunter2default_salt_value''"
  by code_simp

lemma hashPassword_hunter2:
  "hashPassword bcrypt72 None {} ''seed'' ''hunter2''
     = Inr ''$2b$10$seed..................hunter2default_salt_value''"
  using hash_hunter2 by (simp add: hashPassword_def Let_def)

lemma enc_hunter2: "encrypt plain_crypto ''hunter2'' ''k'' ''iv'' = ''ivhunter2=''"
  by code_simp

lemma salted_differ: "take 72 (''wrong'' @ STATIC_SALT None) \<noteq> take 72 (''hunter2'' @ STATIC_SALT None)"
  by (simp add: STATIC_SALT_def js_not_def)

lemma take72_long: "take 72 ((replicate 72 c @ xs) @ ys) = replicate 72 c"
  by simp

lemma wrong_is_rejected:
  "\<not> bcrypt_compare bcrypt72 (''wrong'' @ STATIC_SALT None)
       (bcrypt_hash bcrypt72 (''hunter2'' @ STATIC_SALT None)
          (bcrypt_genSalt bcrypt72 SALT_ROUNDS ''seed''))"
  unfolding bcrypt72_compare_hash using salted_differ by simp

lemma compare_hunter3:
  "comparePassword bcrypt72 None {} ''hunter3''
       ''$2b$10$seed..................hunter2default_salt_value'' \<noteq> Inr True"
proof -
  have "take 72 (''hunter3'' @ STATIC_SALT None) \<noteq> take 72 (''hunter2'' @ STATIC_SALT None)"
    by (simp add: STATIC_SALT_def js_not_def)
  then have "\<not> bcrypt_compare bcrypt72 (''hunter3'' @ STATIC_SALT None)
       (bcrypt_hash bcrypt72 (''hunter2'' @ STATIC_SALT None)
          (bcrypt_genSalt bcrypt72 SALT_ROUNDS ''seed''))"
    unfolding bcrypt72_compare_hash by simp
  then show ?thesis
    unfolding hash_hunter2 by (simp add: comparePassword_def Let_def)
qed

section \<open>The claims\<close>

text \<open>
  C1. For every stored record whose secret is absent (\<open>NULL\<close>), \<open>authenticate\<close> with any
  password, the empty one included, derives a secret from the password (the bcrypt hash
  of the password followed by the static salt, under a fresh salt; the ciphertext in the
  cipher variant), writes it to the row of that username, so that the row selected for
  the username afterwards is the old one with the secret set, and returns the username
  with the permissions of the row. The run is the one without fault, and usernames are
  unique as the schema declares.
\<close>

theorem first_use_provisions_and_grants:
  assumes "unique_usernames tbl" and "r \<in> set tbl" and "password r = None"
  shows "authenticate lib cfg {} rnd tbl (username r) pw =
           (Some (UserInfo (username r) (permissions r)),
            update_password tbl
              (bcrypt_hash lib (pw @ STATIC_SALT cfg) (bcrypt_genSalt lib SALT_ROUNDS rnd))
              (username r))
       \<and> authenticate_cipher clib key iv {} tbl (username r) pw =
           (Some (UserInfo (username r) (permissions r)),
            update_password tbl (encrypt clib pw key iv) (username r))
       \<and> (\<forall>h. select_where_username (update_password tbl h (username r)) (username r)
                = [r\<lparr>password := Some h\<rparr>])"
proof -
  have sel: "select_where_username tbl (username r) = [r]"
    using assms(1,2) by (rule select_unique)
  have absent: "js_not (password r)"
    using assms(3) by (simp add: js_not_def)
  have "select_where_username (update_password tbl h (username r)) (username r)
          = [r\<lparr>password := Some h\<rparr>]" for h
    by (simp add: select_update sel update_single)
  then show ?thesis
    using authenticate_absent [OF sel absent, of lib cfg "{}" rnd pw]
      authenticate_cipher_absent [OF sel absent, of clib key iv "{}" pw]
    by simp
qed

theorem first_use_provisions_and_grants_witness:
  "authenticate bcrypt72 None {} ''seed'' [alice] ''alice'' ''hunter2'' =
     (Some (UserInfo ''alice'' ''read''),
      [alice\<lparr>password := Some ''$2b$10$seed..................hunter2default_salt_value''\<rparr>])
   \<and> authenticate_cipher plain_crypto ''k'' ''iv'' {} [alice] ''alice'' ''hunter2'' =
     (Some (UserInfo ''alice'' ''read''), [alice\<lparr>password := Some ''ivhunter2=''\<rparr>])
   \<and> authenticate bcrypt72 None {} ''seed'' [alice] ''alice'' [] =
     (Some (UserInfo ''alice'' ''read''),
      [alice\<lparr>password := Some ''$2b$10$seed..................default_salt_value''\<rparr>])"
proof -
  have m: "alice \<in> set [alice]" by simp
  show ?thesis
    using first_use_provisions_and_grants [OF alice_unique m alice_fields(3),
        of bcrypt72 None "''seed''" "''hunter2''" plain_crypto "''k''" "''iv''"]
      first_use_provisions_and_grants [OF alice_unique m alice_fields(3),
        of bcrypt72 None "''seed''" "[]" plain_crypto "''k''" "''iv''"]
    unfolding hash_hunter2 hash_empty enc_hunter2 alice_fields alice_update
    by simp
qed

text \<open>
  C2. For every username that no row of the table has, and every password,
  \<open>authenticate\<close> returns \<open>null\<close> and \<open>users\<close> returns \<open>null\<close>, whatever steps fail; the
  table is as before.
\<close>

theorem unknown_user_is_denied:
  assumes "u \<notin> username ` set tbl"
  shows "authenticate lib cfg F rnd tbl u pw = (None, tbl)
       \<and> authenticate_cipher clib key iv F tbl u pw = (None, tbl)
       \<and> users F tbl u = (None, tbl)"
proof -
  have sel: "select_where_username tbl u = []"
    using assms by (rule select_none)
  have "authenticate lib cfg F rnd tbl u pw = (None, tbl)"
    using sel by (rule authenticate_empty)
  moreover have "authenticate_cipher clib key iv F tbl u pw = (None, tbl)"
    using sel by (rule authenticate_cipher_empty)
  moreover have "users F tbl u = (None, tbl)"
    by (simp add: users_def users_try_def query_select_def sel)
  ultimately show ?thesis by simp
qed

theorem unknown_user_is_denied_witness:
  "authenticate bcrypt72 None {} ''seed'' [alice] ''bob'' ''x'' = (None, [alice])
   \<and> authenticate_cipher plain_crypto ''k'' ''iv'' {} [alice] ''bob'' ''x'' = (None, [alice])
   \<and> users {} [alice] ''bob'' = (None, [alice])"
proof -
  have "''bob'' \<notin> username ` set [alice]"
    by (simp add: alice_fields)
  then show ?thesis
    by (rule unknown_user_is_denied)
qed

text \<open>
  C3. For every stored record whose secret is present and was derived from the password
  (by \<open>hashPassword\<close> under some salt; by \<open>encrypt\<close> in the cipher variant),
  \<open>authenticate\<close> with that password returns the username with the permissions stored
  for it, and the table after the call, and after any number of such calls, is the table
  before. The libraries are assumed to keep their contract (\<open>compare\<close> accepts what
  \<open>hash\<close> made; a hash and a ciphertext are never empty); the run is the one without
  fault, on unique usernames.
\<close>

theorem correct_password_grants_and_keeps_secret:
  assumes "unique_usernames tbl" and "r \<in> set tbl"
  shows "(bcrypt_sound lib \<and> hashPassword lib cfg {} rnd0 pw = Inr secret
            \<and> password r = Some secret \<longrightarrow>
          authenticate lib cfg {} rnd tbl (username r) pw
            = (Some (UserInfo (username r) (permissions r)), tbl)
          \<and> ((\<lambda>t. snd (authenticate lib cfg {} rnd t (username r) pw)) ^^ n) tbl = tbl)
       \<and> (encrypt_nonempty clib key iv \<and> password r = Some (encrypt clib pw key iv) \<longrightarrow>
          authenticate_cipher clib key iv {} tbl (username r) pw
            = (Some (UserInfo (username r) (permissions r)), tbl)
          \<and> ((\<lambda>t. snd (authenticate_cipher clib key iv {} t (username r) pw)) ^^ n) tbl = tbl)"
proof -
  have sel: "select_where_username tbl (username r) = [r]"
    using assms by (rule select_unique)
  have hash: "authenticate lib cfg {} rnd tbl (username r) pw
                = (Some (UserInfo (username r) (permissions r)), tbl)"
    if "bcrypt_sound lib" and "hashPassword lib cfg {} rnd0 pw = Inr secret"
      and "password r = Some secret"
  proof -
    have s: "secret = bcrypt_hash lib (pw @ STATIC_SALT cfg) (bcrypt_genSalt lib SALT_ROUNDS rnd0)"
      using that(2) by (simp add: hashPassword_def Let_def)
    have "secret \<noteq> []" and "bcrypt_compare lib (pw @ STATIC_SALT cfg) secret"
      using that(1) unfolding bcrypt_sound_def s by blast+
    then show ?thesis
      using authenticate_present [OF sel that(3), of lib cfg "{}" rnd pw] by simp
  qed
  have cipher: "authenticate_cipher clib key iv {} tbl (username r) pw
                  = (Some (UserInfo (username r) (permissions r)), tbl)"
    if "encrypt_nonempty clib key iv" and "password r = Some (encrypt clib pw key iv)"
  proof -
    have "encrypt clib pw key iv \<noteq> []"
      using that(1) unfolding encrypt_nonempty_def by blast
    then show ?thesis
      using authenticate_cipher_present [OF sel that(2), of clib key iv "{}" pw] by simp
  qed
  show ?thesis
    using hash cipher by (auto intro!: funpow_fixed)
qed

theorem correct_password_grants_and_keeps_secret_witness:
  "authenticate bcrypt72 None {} ''other''
      [alice\<lparr>password := Some ''$2b$10$seed..................hunter2default_salt_value''\<rparr>]
      ''alice'' ''hunter2''
     = (Some (UserInfo ''alice'' ''read''),
        [alice\<lparr>password := Some ''$2b$10$seed..................hunter2default_salt_value''\<rparr>])
   \<and> authenticate_cipher plain_crypto ''k'' ''iv'' {}
        [alice\<lparr>password := Some ''ivhunter2=''\<rparr>] ''alice'' ''hunter2''
     = (Some (UserInfo ''alice'' ''read''), [alice\<lparr>password := Some ''ivhunter2=''\<rparr>])"
proof -
  let ?h = "''$2b$10$seed..................hunter2default_salt_value''"
  let ?c = "''ivhunter2=''"
  have u: "unique_usernames [alice\<lparr>password := Some s\<rparr>]" for s
    by (simp add: unique_usernames_def)
  have m: "alice\<lparr>password := Some s\<rparr> \<in> set [alice\<lparr>password := Some s\<rparr>]" for s
    by simp
  have stored: "password (alice\<lparr>password := Some ?h\<rparr>) = Some ?h"
    by simp
  have stored_cipher:
    "password (alice\<lparr>password := Some ?c\<rparr>) = Some (encrypt plain_crypto ''hunter2'' ''k'' ''iv'')"
    by (simp add: enc_hunter2)
  have "authenticate bcrypt72 None {} ''other'' [alice\<lparr>password := Some ?h\<rparr>]
          ''alice'' ''hunter2''
        = (Some (UserInfo ''alice'' ''read''), [alice\<lparr>password := Some ?h\<rparr>])"
    using correct_password_grants_and_keeps_secret [OF u [of ?h] m [of ?h], THEN conjunct1,
        rule_format, OF conjI [OF bcrypt72_sound conjI [OF hashPassword_hunter2 stored]],
        THEN conjunct1, of "''other''"]
    by (simp add: alice_fields)
  moreover have "authenticate_cipher plain_crypto ''k'' ''iv'' {}
          [alice\<lparr>password := Some ?c\<rparr>] ''alice'' ''hunter2''
        = (Some (UserInfo ''alice'' ''read''), [alice\<lparr>password := Some ?c\<rparr>])"
    using correct_password_grants_and_keeps_secret [OF u [of ?c] m [of ?c], THEN conjunct2,
        rule_format, OF conjI [OF plain_crypto_nonempty stored_cipher], THEN conjunct1]
    by (simp add: alice_fields)
  ultimately show ?thesis by simp
qed

text \<open>
  C4, as stated, fails in the salted-hash variant: bcrypt reads the first 72 bytes of
  what it is given, and \<open>hashPassword\<close> puts the password first and the static salt
  after it. A first use with a password of 73 bytes binds the secret; the call that
  follows with another password, different in the last byte only, is granted.
\<close>

theorem long_passwords_are_both_granted:
  "replicate 72 CHR ''a'' @ ''2'' \<noteq> replicate 72 CHR ''a'' @ ''1''
   \<and> fst (authenticate bcrypt72 None {} ''other''
            (snd (authenticate bcrypt72 None {} ''seed'' [alice] ''alice''
                    (replicate 72 CHR ''a'' @ ''1'')))
            ''alice'' (replicate 72 CHR ''a'' @ ''2''))
       = Some (UserInfo ''alice'' ''read'')"
proof -
  let ?h = "bcrypt_hash bcrypt72 ((replicate 72 CHR ''a'' @ ''1'') @ STATIC_SALT None)
              (bcrypt_genSalt bcrypt72 SALT_ROUNDS ''seed'')"
  have absent: "js_not (password alice)"
    by (simp add: js_not_def alice_fields)
  have first: "snd (authenticate bcrypt72 None {} ''seed'' [alice] ''alice''
                      (replicate 72 CHR ''a'' @ ''1'')) = [alice\<lparr>password := Some ?h\<rparr>]"
    by (simp add: authenticate_absent [OF alice_select absent] alice_update)
  have sel: "select_where_username [alice\<lparr>password := Some ?h\<rparr>] ''alice''
               = [alice\<lparr>password := Some ?h\<rparr>]"
    by (simp add: select_where_username_def alice_fields)
  have stored: "password (alice\<lparr>password := Some ?h\<rparr>) = Some ?h"
    by simp
  have nonempty: "?h \<noteq> []"
    using bcrypt72_sound unfolding bcrypt_sound_def by blast
  have accepted: "bcrypt_compare bcrypt72 ((replicate 72 CHR ''a'' @ ''2'') @ STATIC_SALT None) ?h"
    unfolding bcrypt72_compare_hash take72_long by (rule refl)
  have "fst (authenticate bcrypt72 None {} ''other'' [alice\<lparr>password := Some ?h\<rparr>] ''alice''
               (replicate 72 CHR ''a'' @ ''2'')) = Some (UserInfo ''alice'' ''read'')"
    unfolding authenticate_present [OF sel stored nonempty] using accepted
    by (simp add: alice_fields)
  then show ?thesis
    unfolding first by simp
qed

text \<open>
  C4, amended. After a first use of \<open>authenticate\<close> has provisioned the secret of a
  username, no later call for that username writes to the table, whatever its password
  and whatever fails: the secret is not provisioned again. The later call is granted for
  the first password, and returns \<open>null\<close> exactly when the verification rejects its
  password against the stored secret: in the cipher variant, with a cipher that can be
  decrypted, exactly for a password other than the first; in the salted-hash variant
  exactly when \<open>bcrypt.compare\<close> rejects the password followed by the static salt, which
  it need not do for every password other than the first. The libraries keep their
  contract (\<open>compare\<close> accepts what \<open>hash\<close> made, no secret is empty) and usernames are
  unique.
\<close>

theorem bound_secret_is_not_reprovisioned:
  assumes "unique_usernames tbl" and "r \<in> set tbl" and "password r = None"
  shows "(bcrypt_sound lib \<longrightarrow>
            snd (authenticate lib cfg F rnd'
                   (snd (authenticate lib cfg {} rnd tbl (username r) pw1)) (username r) pw2)
              = snd (authenticate lib cfg {} rnd tbl (username r) pw1))
       \<and> (bcrypt_sound lib \<longrightarrow>
            fst (authenticate lib cfg {} rnd'
                   (snd (authenticate lib cfg {} rnd tbl (username r) pw1)) (username r) pw2)
              = (if bcrypt_compare lib (pw2 @ STATIC_SALT cfg)
                      (bcrypt_hash lib (pw1 @ STATIC_SALT cfg) (bcrypt_genSalt lib SALT_ROUNDS rnd))
                 then Some (UserInfo (username r) (permissions r)) else None))
       \<and> (bcrypt_sound lib \<longrightarrow>
            fst (authenticate lib cfg {} rnd'
                   (snd (authenticate lib cfg {} rnd tbl (username r) pw1)) (username r) pw1)
              = Some (UserInfo (username r) (permissions r)))
       \<and> (bcrypt_sound lib
            \<and> \<not> bcrypt_compare lib (pw2 @ STATIC_SALT cfg)
                  (bcrypt_hash lib (pw1 @ STATIC_SALT cfg) (bcrypt_genSalt lib SALT_ROUNDS rnd)) \<longrightarrow>
            fst (authenticate lib cfg F rnd'
                   (snd (authenticate lib cfg {} rnd tbl (username r) pw1)) (username r) pw2)
              = None)
       \<and> (encrypt_nonempty clib key iv \<longrightarrow>
            snd (authenticate_cipher clib key iv F
                   (snd (authenticate_cipher clib key iv {} tbl (username r) pw1)) (username r) pw2)
              = snd (authenticate_cipher clib key iv {} tbl (username r) pw1))
       \<and> (encrypt_nonempty clib key iv \<and> encrypt_injective clib key iv \<longrightarrow>
            fst (authenticate_cipher clib key iv {}
                   (snd (authenticate_cipher clib key iv {} tbl (username r) pw1)) (username r) pw2)
              = (if pw2 = pw1 then Some (UserInfo (username r) (permissions r)) else None))
       \<and> (encrypt_nonempty clib key iv \<and> encrypt_injective clib key iv \<and> pw2 \<noteq> pw1 \<longrightarrow>
            fst (authenticate_cipher clib key iv F
                   (snd (authenticate_cipher clib key iv {} tbl (username r) pw1)) (username r) pw2)
              = None)"
proof -
  let ?u = "username r"
  let ?h = "bcrypt_hash lib (pw1 @ STATIC_SALT cfg) (bcrypt_genSalt lib SALT_ROUNDS rnd)"
  let ?c = "encrypt clib pw1 key iv"
  have sel: "select_where_username tbl ?u = [r]"
    using assms(1,2) by (rule select_unique)
  have absent: "js_not (password r)"
    using assms(3) by (simp add: js_not_def)
  have first: "snd (authenticate lib cfg {} rnd tbl ?u pw1) = update_password tbl ?h ?u"
    by (simp add: authenticate_absent [OF sel absent])
  have first_cipher:
    "snd (authenticate_cipher clib key iv {} tbl ?u pw1) = update_password tbl ?c ?u"
    by (simp add: authenticate_cipher_absent [OF sel absent])
  have sel1: "select_where_username (update_password tbl s ?u) ?u = [r\<lparr>password := Some s\<rparr>]"
    for s
    using assms(1,2) by (rule select_after_update)
  have stored: "password (r\<lparr>password := Some s\<rparr>) = Some s" for s
    by simp
  have second: "authenticate lib cfg G rnd' (update_password tbl ?h ?u) ?u p
      = (if FirstSelect \<in> G \<or> Compare \<in> G then None
         else if bcrypt_compare lib (p @ STATIC_SALT cfg) ?h
         then Some (UserInfo ?u (permissions r)) else None, update_password tbl ?h ?u)"
    if "bcrypt_sound lib" for G p
  proof -
    have nonempty: "?h \<noteq> []" using that unfolding bcrypt_sound_def by blast
    show ?thesis by (simp add: authenticate_present [OF sel1 stored nonempty])
  qed
  have own: "bcrypt_compare lib (pw1 @ STATIC_SALT cfg) ?h" if "bcrypt_sound lib"
    using that unfolding bcrypt_sound_def by blast
  have second_cipher: "authenticate_cipher clib key iv G (update_password tbl ?c ?u) ?u pw2
      = (if Encrypt \<in> G \<or> FirstSelect \<in> G then None
         else if ?c = encrypt clib pw2 key iv
         then Some (UserInfo ?u (permissions r)) else None, update_password tbl ?c ?u)"
    if "encrypt_nonempty clib key iv" for G
  proof -
    have nonempty: "?c \<noteq> []" using that unfolding encrypt_nonempty_def by blast
    show ?thesis by (simp add: authenticate_cipher_present [OF sel1 stored nonempty])
  qed
  have same: "(?c = encrypt clib pw2 key iv) = (pw2 = pw1)"
    if "encrypt_injective clib key iv"
    using that unfolding encrypt_injective_def by auto
  show ?thesis
    unfolding first first_cipher
    using second own second_cipher same by simp
qed

theorem bound_secret_is_not_reprovisioned_witness:
  "fst (authenticate bcrypt72 None {} ''other''
          (snd (authenticate bcrypt72 None {} ''seed'' [alice] ''alice'' ''hunter2''))
          ''alice'' ''wrong'') = None
   \<and> snd (authenticate bcrypt72 None {} ''other''
          (snd (authenticate bcrypt72 None {} ''seed'' [alice] ''alice'' ''hunter2''))
          ''alice'' ''wrong'')
     = snd (authenticate bcrypt72 None {} ''seed'' [alice] ''alice'' ''hunter2'')
   \<and> fst (authenticate bcrypt72 None {} ''other''
          (snd (authenticate bcrypt72 None {} ''seed'' [alice] ''alice'' ''hunter2''))
          ''alice'' ''hunter2'') = Some (UserInfo ''alice'' ''read'')
   \<and> fst (authenticate_cipher plain_crypto ''k'' ''iv'' {}
          (snd (authenticate_cipher plain_crypto ''k'' ''iv'' {} [alice] ''alice'' ''hunter2''))
          ''alice'' ''wrong'') = None
   \<and> fst (authenticate_cipher plain_crypto ''k'' ''iv'' {}
          (snd (authenticate_cipher plain_crypto ''k'' ''iv'' {} [alice] ''alice'' ''hunter2''))
          ''alice'' ''hunter2'') = Some (UserInfo ''alice'' ''read'')"
proof -
  have m: "alice \<in> set [alice]" by simp
  have d: "''wrong'' \<noteq> ''hunter2''" by simp
  note inst = bound_secret_is_not_reprovisioned [OF alice_unique m alice_fields(3),
      unfolded alice_fields]
  have "fst (authenticate bcrypt72 None {} ''other''
          (snd (authenticate bcrypt72 None {} ''seed'' [alice] ''alice'' ''hunter2''))
          ''alice'' ''wrong'') = None"
    using inst [THEN conjunct2, THEN conjunct2, THEN conjunct2, THEN conjunct1, rule_format,
        OF conjI [OF bcrypt72_sound wrong_is_rejected]] .
  moreover have "snd (authenticate bcrypt72 None {} ''other''
          (snd (authenticate bcrypt72 None {} ''seed'' [alice] ''alice'' ''hunter2''))
          ''alice'' ''wrong'')
     = snd (authenticate bcrypt72 None {} ''seed'' [alice] ''alice'' ''hunter2'')"
    using inst [THEN conjunct1, rule_format, OF bcrypt72_sound] .
  moreover have "fst (authenticate bcrypt72 None {} ''other''
          (snd (authenticate bcrypt72 None {} ''seed'' [alice] ''alice'' ''hunter2''))
          ''alice'' ''hunter2'') = Some (UserInfo ''alice'' ''read'')"
    using inst [THEN conjunct2, THEN conjunct2, THEN conjunct1, rule_format, OF bcrypt72_sound] .
  moreover have "fst (authenticate_cipher plain_crypto ''k'' ''iv'' {}
          (snd (authenticate_cipher plain_crypto ''k'' ''iv'' {} [alice] ''alice'' ''hunter2''))
          ''alice'' ''wrong'') = None"
    using inst [THEN conjunct2, THEN conjunct2, THEN conjunct2, THEN conjunct2, THEN conjunct2,
        THEN conjunct2, rule_format,
        OF conjI [OF plain_crypto_nonempty conjI [OF plain_crypto_injective d]]] .
  moreover have "fst (authenticate_cipher plain_crypto ''k'' ''iv'' {}
          (snd (authenticate_cipher plain_crypto ''k'' ''iv'' {} [alice] ''alice'' ''hunter2''))
          ''alice'' ''hunter2'') = Some (UserInfo ''alice'' ''read'')"
    using inst [THEN conjunct2, THEN conjunct2, THEN conjunct2, THEN conjunct2, THEN conjunct2,
        THEN conjunct1, rule_format,
        OF conjI [OF plain_crypto_nonempty [of "''k''" "''iv''"] plain_crypto_injective],
        where ?pw1.0 = "''hunter2''" and ?pw2.0 = "''hunter2''"]
    by simp
  ultimately show ?thesis by simp
qed

text \<open>
  C5, as stated, fails where a row holds the empty string as its password: the column is
  not \<open>NULL\<close>, so the secret is present, yet \<open>!user.password\<close> is true of it and
  \<open>authenticate\<close> writes a new secret over it.
\<close>

theorem empty_secret_is_overwritten:
  "password ([alice\<lparr>password := Some []\<rparr>] ! 0) = Some []
   \<and> password (snd (authenticate bcrypt72 None {} ''seed'' [alice\<lparr>password := Some []\<rparr>]
                      ''alice'' ''hunter2'') ! 0)
       = Some ''$2b$10$seed..................hunter2default_salt_value''"
proof -
  have "js_not (password (alice\<lparr>password := Some []\<rparr>))"
    by (simp add: js_not_def)
  from authenticate_absent [OF blank_select this, of bcrypt72 None "{}" "''seed''" "''hunter2''"]
  show ?thesis
    unfolding hash_hunter2 blank_update by simp
qed

text \<open>
  C5, amended. Every call of \<open>authenticate\<close>, whatever the username, the password and the
  faults, leaves every row whose password is present and not the empty string exactly as
  it was, at its place in the table; usernames are unique as the schema declares.
\<close>

theorem nonempty_secret_is_never_overwritten:
  assumes "unique_usernames tbl" and "i < length tbl" and "\<not> js_not (password (tbl ! i))"
  shows "length (snd (authenticate lib cfg F rnd tbl u pw)) = length tbl
       \<and> snd (authenticate lib cfg F rnd tbl u pw) ! i = tbl ! i
       \<and> length (snd (authenticate_cipher clib key iv F tbl u pw)) = length tbl
       \<and> snd (authenticate_cipher clib key iv F tbl u pw) ! i = tbl ! i"
proof -
  have "length (snd (authenticate lib cfg F rnd tbl u pw)) = length tbl
      \<and> snd (authenticate lib cfg F rnd tbl u pw) ! i = tbl ! i"
    using authenticate_post [of lib cfg F rnd tbl u pw] update_keeps_present [OF assms]
    by (auto simp: length_update)
  moreover have "length (snd (authenticate_cipher clib key iv F tbl u pw)) = length tbl
      \<and> snd (authenticate_cipher clib key iv F tbl u pw) ! i = tbl ! i"
    using authenticate_cipher_post [of clib key iv F tbl u pw] update_keeps_present [OF assms]
    by (auto simp: length_update)
  ultimately show ?thesis by simp
qed

theorem nonempty_secret_is_never_overwritten_witness:
  "snd (authenticate bcrypt72 None {} ''seed''
          [alice, \<lparr>username = ''bob'', password = Some ''x'', permissions = ''read,write''\<rparr>]
          ''alice'' ''hunter2'') ! 1
     = \<lparr>username = ''bob'', password = Some ''x'', permissions = ''read,write''\<rparr>
   \<and> snd (authenticate_cipher plain_crypto ''k'' ''iv'' {}
          [alice, \<lparr>username = ''bob'', password = Some ''x'', permissions = ''read,write''\<rparr>]
          ''bob'' ''hunter2'') ! 1
     = \<lparr>username = ''bob'', password = Some ''x'', permissions = ''read,write''\<rparr>"
proof -
  let ?bob = "\<lparr>username = ''bob'', password = Some ''x'', permissions = ''read,write''\<rparr>"
  have u: "unique_usernames [alice, ?bob]"
    by (simp add: unique_usernames_def alice_fields)
  have i: "1 < length [alice, ?bob]" by simp
  have p: "\<not> js_not (password ([alice, ?bob] ! 1))"
    by (simp add: js_not_def)
  have "snd (authenticate bcrypt72 None {} ''seed'' [alice, ?bob] ''alice'' ''hunter2'') ! 1
          = [alice, ?bob] ! 1"
    using nonempty_secret_is_never_overwritten [OF u i p, THEN conjunct2, THEN conjunct1] .
  moreover have "snd (authenticate_cipher plain_crypto ''k'' ''iv'' {} [alice, ?bob] ''bob''
          ''hunter2'') ! 1 = [alice, ?bob] ! 1"
    using nonempty_secret_is_never_overwritten [OF u i p, THEN conjunct2, THEN conjunct2,
        THEN conjunct2] .
  ultimately show ?thesis by simp
qed

text \<open>
  C6, at a failing input. The single-connection module is loaded while the store is
  unreachable, so that its \<open>connect()\<close> rejects: a call of \<open>authenticate\<close>, or of \<open>users\<close>,
  is never settled, because the process ends; the caller does not receive \<open>null\<close>. The
  pooled cipher module returns \<open>null\<close> for an unreachable store, where the failure is the
  rejection of its first query. An \<open>'error'\<close> event on the pool ends the process of the
  pooled modules too, and a \<open>catch\<close> that is handed \<open>null\<close> or \<open>undefined\<close> rejects the call.
  (A fault that rejects an awaited call with an \<open>Error\<close> does give \<open>null\<close>: lemmas
  \<open>authenticate_fault\<close>, \<open>authenticate_cipher_fault\<close>, \<open>users_fault\<close> and \<open>served_healthy\<close>.)
\<close>

theorem unreachable_store_ends_the_process:
  "authenticate_client_served (healthy\<lparr>connect_rejected := True\<rparr>) plain_crypto ''k'' ''iv'' {}
       [alice] ''alice'' ''hunter2'' = ProcessExit
   \<and> users_client_served (healthy\<lparr>connect_rejected := True\<rparr>) {} [alice] ''alice'' = ProcessExit
   \<and> authenticate_cipher_served healthy plain_crypto ''k'' ''iv'' {FirstSelect}
       [alice] ''alice'' ''hunter2'' = Resolved (None, [alice])
   \<and> authenticate_served (healthy\<lparr>error_event := True\<rparr>) bcrypt72 None {} ''seed''
       [alice] ''alice'' ''hunter2'' = ProcessExit
   \<and> authenticate_served (healthy\<lparr>caught_nullish := True\<rparr>) bcrypt72 None {FirstSelect} ''seed''
       [alice] ''alice'' ''hunter2'' = Rejected"
proof -
  have "authenticate_cipher_served healthy plain_crypto ''k'' ''iv'' {FirstSelect}
       [alice] ''alice'' ''hunter2'' = Resolved (None, [alice])"
    by (simp add: served_healthy authenticate_cipher_def authenticate_cipher_try_def
        query_select_def Let_def)
  moreover have "authenticate_served (healthy\<lparr>caught_nullish := True\<rparr>) bcrypt72 None
       {FirstSelect} ''seed'' [alice] ''alice'' ''hunter2'' = Rejected"
    by (simp add: authenticate_served_def pooled_def healthy_def authenticate_try_def
        query_select_def)
  ultimately show ?thesis
    by (simp add: authenticate_client_served_def users_client_served_def authenticate_served_def
        pooled_def healthy_def)
qed

text \<open>
  C7, as stated, fails in its second half for the salted-hash variant: two candidates of
  73 bytes that differ in the last byte; \<open>comparePassword\<close> accepts the second against the
  hash \<open>hashPassword\<close> derived from the first.
\<close>

theorem long_candidates_verify_each_other:
  "replicate 72 CHR ''x'' @ ''B'' \<noteq> replicate 72 CHR ''x'' @ ''A''
   \<and> hashPassword bcrypt72 None {} ''seed'' (replicate 72 CHR ''x'' @ ''A'')
       = Inr (''$2b$10$seed..................'' @ replicate 72 CHR ''x'')
   \<and> comparePassword bcrypt72 None {} (replicate 72 CHR ''x'' @ ''B'')
         (''$2b$10$seed..................'' @ replicate 72 CHR ''x'')
       = Inr True"
proof -
  have salt: "bcrypt_genSalt bcrypt72 SALT_ROUNDS ''seed'' = ''$2b$10$seed..................''"
    by code_simp
  have derive: "hashPassword bcrypt72 None {} ''seed'' (replicate 72 CHR ''x'' @ ''A'')
       = Inr (''$2b$10$seed..................'' @ replicate 72 CHR ''x'')"
    unfolding hashPassword_def Let_def salt by (simp add: bcrypt72_def bcrypt_of_def)
  have verify: "comparePassword bcrypt72 None {} (replicate 72 CHR ''x'' @ ''B'')
         (''$2b$10$seed..................'' @ replicate 72 CHR ''x'') = Inr True"
    unfolding comparePassword_def Let_def by (simp add: bcrypt72_def bcrypt_of_def)
  show ?thesis
    using derive verify by simp
qed

text \<open>
  C7, amended. Deriving a secret from a candidate and verifying the same candidate
  against it succeeds in both variants: \<open>comparePassword\<close> accepts the candidate against
  the hash \<open>hashPassword\<close> made from it, and \<open>authenticate\<close> grants it to a record that
  holds the derived secret, in the salted-hash and in the cipher variant. Against such a
  record a different candidate is denied in the cipher variant, the cipher being
  injective; in the salted-hash variant \<open>authenticate\<close> grants a candidate exactly when
  \<open>comparePassword\<close> accepts it against the stored hash, and nothing makes it reject every
  candidate that differs. The libraries keep their contract; the run is the one without
  fault, on unique usernames.
\<close>

theorem derive_then_verify:
  assumes "unique_usernames tbl" and "r \<in> set tbl"
  shows "(bcrypt_sound lib \<longrightarrow>
            (\<exists>h. hashPassword lib cfg {} rnd c = Inr h \<and> h \<noteq> []
                 \<and> comparePassword lib cfg {} c h = Inr True))
       \<and> (bcrypt_sound lib \<and> hashPassword lib cfg {} rnd c = Inr h \<and> password r = Some h \<longrightarrow>
            fst (authenticate lib cfg {} rnd' tbl (username r) c')
              = (if comparePassword lib cfg {} c' h = Inr True
                 then Some (UserInfo (username r) (permissions r)) else None))
       \<and> (bcrypt_sound lib \<and> hashPassword lib cfg {} rnd c = Inr h \<and> password r = Some h \<longrightarrow>
            fst (authenticate lib cfg {} rnd' tbl (username r) c)
              = Some (UserInfo (username r) (permissions r)))
       \<and> (encrypt_nonempty clib key iv \<and> password r = Some (encrypt clib c key iv) \<longrightarrow>
            fst (authenticate_cipher clib key iv {} tbl (username r) c)
              = Some (UserInfo (username r) (permissions r)))
       \<and> (encrypt_nonempty clib key iv \<and> encrypt_injective clib key iv
            \<and> password r = Some (encrypt clib c key iv) \<longrightarrow>
            fst (authenticate_cipher clib key iv {} tbl (username r) c')
              = (if c' = c then Some (UserInfo (username r) (permissions r)) else None))"
proof -
  let ?S = "STATIC_SALT cfg"
  let ?d = "bcrypt_hash lib (c @ ?S) (bcrypt_genSalt lib SALT_ROUNDS rnd)"
  have sel: "select_where_username tbl (username r) = [r]"
    using assms by (rule select_unique)
  have derive: "hashPassword lib cfg {} rnd c = Inr ?d"
    by (simp add: hashPassword_def Let_def)
  have verify: "comparePassword lib cfg {} x s = Inr (bcrypt_compare lib (x @ ?S) s)" for x s
    by (simp add: comparePassword_def Let_def)
  have sound: "?d \<noteq> []" "bcrypt_compare lib (c @ ?S) ?d" if "bcrypt_sound lib"
    using that unfolding bcrypt_sound_def by blast+
  have round_trip: "\<exists>h. hashPassword lib cfg {} rnd c = Inr h \<and> h \<noteq> []
      \<and> comparePassword lib cfg {} c h = Inr True"
    if "bcrypt_sound lib"
    using sound [OF that] by (simp add: derive verify)
  have decision: "fst (authenticate lib cfg {} rnd' tbl (username r) x)
      = (if comparePassword lib cfg {} x h = Inr True
         then Some (UserInfo (username r) (permissions r)) else None)"
    if s: "bcrypt_sound lib" and h: "hashPassword lib cfg {} rnd c = Inr h"
      and p: "password r = Some h" for x
  proof -
    have "h = ?d" using h by (simp add: derive)
    with sound(1) [OF s] have nonempty: "h \<noteq> []" by simp
    show ?thesis
      by (simp add: authenticate_present [OF sel p nonempty] verify)
  qed
  have granted: "fst (authenticate lib cfg {} rnd' tbl (username r) c)
      = Some (UserInfo (username r) (permissions r))"
    if s: "bcrypt_sound lib" and h: "hashPassword lib cfg {} rnd c = Inr h"
      and p: "password r = Some h"
  proof -
    have "h = ?d" using h by (simp add: derive)
    with sound(2) [OF s] have "comparePassword lib cfg {} c h = Inr True"
      by (simp add: verify)
    with decision [OF s h p, of c] show ?thesis by simp
  qed
  have cipher: "fst (authenticate_cipher clib key iv {} tbl (username r) x)
      = (if encrypt clib c key iv = encrypt clib x key iv
         then Some (UserInfo (username r) (permissions r)) else None)"
    if n: "encrypt_nonempty clib key iv" and p: "password r = Some (encrypt clib c key iv)" for x
  proof -
    have nonempty: "encrypt clib c key iv \<noteq> []"
      using n unfolding encrypt_nonempty_def by blast
    show ?thesis
      by (simp add: authenticate_cipher_present [OF sel p nonempty])
  qed
  have same: "(encrypt clib c key iv = encrypt clib c' key iv) = (c' = c)"
    if "encrypt_injective clib key iv"
    using that unfolding encrypt_injective_def by auto
  show ?thesis
    using round_trip decision granted cipher same by simp
qed

theorem derive_then_verify_witness:
  "fst (authenticate bcrypt72 None {} ''other''
          [alice\<lparr>password := Some ''$2b$10$seed..................hunter2default_salt_value''\<rparr>]
          ''alice'' ''hunter2'') = Some (UserInfo ''alice'' ''read'')
   \<and> fst (authenticate bcrypt72 None {} ''other''
          [alice\<lparr>password := Some ''$2b$10$seed..................hunter2default_salt_value''\<rparr>]
          ''alice'' ''hunter3'') = None
   \<and> fst (authenticate_cipher plain_crypto ''k'' ''iv'' {}
          [alice\<lparr>password := Some ''ivhunter2=''\<rparr>] ''alice'' ''hunter2'')
       = Some (UserInfo ''alice'' ''read'')
   \<and> fst (authenticate_cipher plain_crypto ''k'' ''iv'' {}
          [alice\<lparr>password := Some ''ivhunter2=''\<rparr>] ''alice'' ''hunter3'') = None"
proof -
  let ?h = "''$2b$10$seed..................hunter2default_salt_value''"
  let ?c = "''ivhunter2=''"
  have u: "unique_usernames [alice\<lparr>password := Some s\<rparr>]" for s
    by (simp add: unique_usernames_def)
  have m: "alice\<lparr>password := Some s\<rparr> \<in> set [alice\<lparr>password := Some s\<rparr>]" for s
    by simp
  have stored: "password (alice\<lparr>password := Some ?h\<rparr>) = Some ?h"
    by simp
  have stored_cipher:
    "password (alice\<lparr>password := Some ?c\<rparr>) = Some (encrypt plain_crypto ''hunter2'' ''k'' ''iv'')"
    by (simp add: enc_hunter2)
  note hash_side = conjI [OF bcrypt72_sound conjI [OF hashPassword_hunter2 stored]]
  note cipher_side = conjI [OF plain_crypto_nonempty [of "''k''" "''iv''"]
      conjI [OF plain_crypto_injective stored_cipher]]
  have "fst (authenticate bcrypt72 None {} ''other'' [alice\<lparr>password := Some ?h\<rparr>]
          ''alice'' ''hunter2'') = Some (UserInfo ''alice'' ''read'')"
    using derive_then_verify [OF u [of ?h] m [of ?h], THEN conjunct2, THEN conjunct2,
        THEN conjunct1, rule_format, OF hash_side, where rnd' = "''other''"]
    by (simp add: alice_fields)
  moreover have "fst (authenticate bcrypt72 None {} ''other'' [alice\<lparr>password := Some ?h\<rparr>]
          ''alice'' ''hunter3'') = None"
    using derive_then_verify [OF u [of ?h] m [of ?h], THEN conjunct2, THEN conjunct1,
        rule_format, OF hash_side, where rnd' = "''other''" and c' = "''hunter3''"]
      compare_hunter3
    by (simp add: alice_fields)
  moreover have "fst (authenticate_cipher plain_crypto ''k'' ''iv'' {}
          [alice\<lparr>password := Some ?c\<rparr>] ''alice'' ''hunter2'')
        = Some (UserInfo ''alice'' ''read'')"
    using derive_then_verify [OF u [of ?c] m [of ?c], THEN conjunct2, THEN conjunct2,
        THEN conjunct2, THEN conjunct2, rule_format, OF cipher_side, where c' = "''hunter2''"]
    by (simp add: alice_fields)
  moreover have "fst (authenticate_cipher plain_crypto ''k'' ''iv'' {}
          [alice\<lparr>password := Some ?c\<rparr>] ''alice'' ''hunter3'') = None"
    using derive_then_verify [OF u [of ?c] m [of ?c], THEN conjunct2, THEN conjunct2,
        THEN conjunct2, THEN conjunct2, rule_format, OF cipher_side, where c' = "''hunter3''"]
    by (simp add: alice_fields)
  ultimately show ?thesis by simp
qed

text \<open>
  C8. \<open>users\<close> is a pure read: the table after the call is the table before, whatever
  fails; and without fault it returns an object exactly when a row has the username,
  made of the username and of the permissions of a row with that username (of the row,
  when usernames are unique).
\<close>

theorem users_is_a_pure_read:
  "snd (users F tbl u) = tbl
   \<and> (fst (users {} tbl u) \<noteq> None) = (u \<in> username ` set tbl)
   \<and> (\<forall>info. fst (users {} tbl u) = Some info \<longrightarrow>
         (\<exists>r \<in> set tbl. username r = u \<and> info = UserInfo u (permissions r)))
   \<and> (unique_usernames tbl \<and> r \<in> set tbl \<longrightarrow>
         fst (users {} tbl (username r)) = Some (UserInfo (username r) (permissions r)))"
proof -
  have frame: "snd (users F tbl u) = tbl"
    by (simp add: users_result)
  have found: "(fst (users {} tbl u) \<noteq> None) = (u \<in> username ` set tbl)"
    using select_empty_iff [of tbl u]
    by (cases "select_where_username tbl u") (simp_all add: users_result)
  have some: "\<exists>r \<in> set tbl. username r = u \<and> info = UserInfo u (permissions r)"
    if "fst (users {} tbl u) = Some info" for info
  proof (cases "select_where_username tbl u")
    case Nil
    with that show ?thesis by (simp add: users_result)
  next
    case (Cons user rest)
    with that have "info = UserInfo u (permissions user)"
      by (simp add: users_result)
    then show ?thesis
      using select_head_member [OF Cons] select_head_username [OF Cons] by blast
  qed
  have the_row: "fst (users {} tbl (username r)) = Some (UserInfo (username r) (permissions r))"
    if "unique_usernames tbl" and "r \<in> set tbl"
    using select_unique [OF that] by (simp add: users_result)
  show ?thesis
    using frame found some the_row by blast
qed

theorem users_is_a_pure_read_witness:
  "users {} [alice] ''alice'' = (Some (UserInfo ''alice'' ''read''), [alice])
   \<and> fst (users {} [alice] ''bob'') = None
   \<and> snd (users {UsersSelect} [alice] ''alice'') = [alice]"
proof -
  note at_alice = users_is_a_pure_read [of "{}" "[alice]" "''alice''" alice]
  note at_bob = users_is_a_pure_read [of "{}" "[alice]" "''bob''" alice]
  have m: "alice \<in> set [alice]" by simp
  have b: "''bob'' \<notin> username ` set [alice]" by (simp add: alice_fields)
  have "snd (users {} [alice] ''alice'') = [alice]"
    using at_alice by (rule conjunct1)
  moreover have "fst (users {} [alice] ''alice'') = Some (UserInfo ''alice'' ''read'')"
    using at_alice [THEN conjunct2, THEN conjunct2, THEN conjunct2, rule_format,
        OF conjI [OF alice_unique m]]
    by (simp only: alice_fields)
  moreover have "fst (users {} [alice] ''bob'') = None"
    using at_bob [THEN conjunct2, THEN conjunct1] b by simp
  moreover have "snd (users {UsersSelect} [alice] ''alice'') = [alice]"
    using users_is_a_pure_read [of "{UsersSelect}" "[alice]" "''alice''" alice]
    by (rule conjunct1)
  ultimately show ?thesis
    by (simp add: prod_eq_iff)
qed

text \<open>
  C9, as stated, fails in the salted-hash variant: \<open>hashPassword\<close> draws a fresh random
  salt at every call, so two first-use runs from the same store, username and password
  leave different secrets in the store.
\<close>

theorem two_runs_leave_different_stores:
  "snd (authenticate bcrypt72 None {} ''seed'' [alice] ''alice'' ''hunter2'')
     = [alice\<lparr>password := Some ''$2b$10$seed..................hunter2default_salt_value''\<rparr>]
   \<and> snd (authenticate bcrypt72 None {} ''dice'' [alice] ''alice'' ''hunter2'')
     = [alice\<lparr>password := Some ''$2b$10$dice..................hunter2default_salt_value''\<rparr>]
   \<and> snd (authenticate bcrypt72 None {} ''seed'' [alice] ''alice'' ''hunter2'')
     \<noteq> snd (authenticate bcrypt72 None {} ''dice'' [alice] ''alice'' ''hunter2'')"
proof -
  have absent: "js_not (password alice)"
    by (simp add: js_not_def alice_fields)
  note run = authenticate_absent [OF alice_select absent, of bcrypt72 None "{}" _ "''hunter2''"]
  show ?thesis
    unfolding run hash_hunter2 hash_dice alice_update by (simp add: alice_def)
qed

text \<open>
  C9, amended. \<open>authenticate\<close> is a function of the store, the username, the password,
  the faults that occur and, in the salted-hash variant, the salt drawn. Two runs that
  differ in the randomness only return the same result, and their stores agree on the
  usernames and permissions of all rows and on every row of another username; the stores
  are equal when the two salts are equal, and when the row looked up has a non-empty
  password or there is none. (The cipher variant draws nothing: it is a function of
  store, username, password and faults.)
\<close>

theorem result_does_not_depend_on_the_salt:
  "fst (authenticate lib cfg F rnd1 tbl u pw) = fst (authenticate lib cfg F rnd2 tbl u pw)
   \<and> map (\<lambda>r. (username r, permissions r)) (snd (authenticate lib cfg F rnd1 tbl u pw))
       = map (\<lambda>r. (username r, permissions r)) (snd (authenticate lib cfg F rnd2 tbl u pw))
   \<and> filter (\<lambda>r. username r \<noteq> u) (snd (authenticate lib cfg F rnd1 tbl u pw))
       = filter (\<lambda>r. username r \<noteq> u) (snd (authenticate lib cfg F rnd2 tbl u pw))
   \<and> (bcrypt_genSalt lib SALT_ROUNDS rnd1 = bcrypt_genSalt lib SALT_ROUNDS rnd2 \<longrightarrow>
        authenticate lib cfg F rnd1 tbl u pw = authenticate lib cfg F rnd2 tbl u pw)
   \<and> ((\<forall>user rest. select_where_username tbl u = user # rest \<longrightarrow> \<not> js_not (password user)) \<longrightarrow>
        authenticate lib cfg F rnd1 tbl u pw = authenticate lib cfg F rnd2 tbl u pw)"
proof (cases "select_where_username tbl u")
  case Nil
  then show ?thesis by (simp add: authenticate_empty)
next
  case (Cons user rest)
  show ?thesis
  proof (cases "js_not (password user)")
    case True
    show ?thesis
      using Cons True
      by (simp add: authenticate_absent [OF Cons True] columns_update others_update)
  next
    case False
    then obtain stored where st: "password user = Some stored" "stored \<noteq> []"
      using js_not_cases by blast
    show ?thesis
      by (simp add: authenticate_present [OF Cons st])
  qed
qed

theorem result_does_not_depend_on_the_salt_witness:
  "fst (authenticate bcrypt72 None {} ''seed'' [alice] ''alice'' ''hunter2'')
     = fst (authenticate bcrypt72 None {} ''dice'' [alice] ''alice'' ''hunter2'')
   \<and> map (\<lambda>r. (username r, permissions r))
         (snd (authenticate bcrypt72 None {} ''seed'' [alice] ''alice'' ''hunter2''))
     = map (\<lambda>r. (username r, permissions r))
         (snd (authenticate bcrypt72 None {} ''dice'' [alice] ''alice'' ''hunter2''))
   \<and> authenticate bcrypt72 None {} ''seed'' [alice] ''alice'' ''hunter2''
     = authenticate bcrypt72 None {} (''seed'' @ replicate 18 CHR ''.'') [alice] ''alice'' ''hunter2''"
proof -
  have same: "bcrypt_genSalt bcrypt72 SALT_ROUNDS ''seed''
      = bcrypt_genSalt bcrypt72 SALT_ROUNDS (''seed'' @ replicate 18 CHR ''.'')"
    by (simp add: bcrypt72_def bcrypt_of_def)
  note at_dice = result_does_not_depend_on_the_salt [of bcrypt72 None "{}" "''seed''" "[alice]"
      "''alice''" "''hunter2''" "''dice''"]
  show ?thesis
    using at_dice [THEN conjunct1] at_dice [THEN conjunct2, THEN conjunct1]
      result_does_not_depend_on_the_salt [THEN conjunct2, THEN conjunct2, THEN conjunct2,
        THEN conjunct1, rule_format, OF same]
    by simp
qed

text \<open>
  C10, as stated, fails on the same kind of row in the cipher variant: the record looked
  up has a password that is not \<open>NULL\<close> (the empty string), and the call issues the
  \<open>UPDATE\<close>.
\<close>

theorem empty_secret_is_written_over:
  "password (hd (select_where_username [alice\<lparr>password := Some []\<rparr>] ''alice'')) = Some []
   \<and> snd (authenticate_cipher plain_crypto ''k'' ''iv'' {} [alice\<lparr>password := Some []\<rparr>]
            ''alice'' ''hunter2'')
       = [alice\<lparr>password := Some ''ivhunter2=''\<rparr>]
   \<and> snd (authenticate_cipher plain_crypto ''k'' ''iv'' {} [alice\<lparr>password := Some []\<rparr>]
            ''alice'' ''hunter2'')
       \<noteq> [alice\<lparr>password := Some []\<rparr>]"
proof -
  have "js_not (password (alice\<lparr>password := Some []\<rparr>))"
    by (simp add: js_not_def)
  from authenticate_cipher_absent [OF blank_select this, of plain_crypto "''k''" "''iv''" "{}"
      "''hunter2''"]
  show ?thesis
    unfolding enc_hunter2 blank_update blank_select by (simp add: alice_def)
qed

text \<open>
  C10, amended. When the record looked up (the first row the query returns) has a
  password that is present and not the empty string, or when there is no such record,
  \<open>authenticate\<close> leaves the whole table unchanged, on every branch and under every fault.
  In every case the table after the call is the table before, or the table before with
  the password of the given username set to the secret derived from the given password:
  the call issues no other write.
\<close>

theorem nonempty_secret_means_no_write:
  "(select_where_username tbl u = user # rest \<and> \<not> js_not (password user) \<longrightarrow>
      snd (authenticate lib cfg F rnd tbl u pw) = tbl
      \<and> snd (authenticate_cipher clib key iv F tbl u pw) = tbl)
   \<and> (select_where_username tbl u = [] \<longrightarrow>
      snd (authenticate lib cfg F rnd tbl u pw) = tbl
      \<and> snd (authenticate_cipher clib key iv F tbl u pw) = tbl)
   \<and> (snd (authenticate lib cfg F rnd tbl u pw) = tbl
      \<or> snd (authenticate lib cfg F rnd tbl u pw)
          = update_password tbl
              (bcrypt_hash lib (pw @ STATIC_SALT cfg) (bcrypt_genSalt lib SALT_ROUNDS rnd)) u)
   \<and> (snd (authenticate_cipher clib key iv F tbl u pw) = tbl
      \<or> snd (authenticate_cipher clib key iv F tbl u pw)
          = update_password tbl (encrypt clib pw key iv) u)"
proof -
  have present: "snd (authenticate lib cfg F rnd tbl u pw) = tbl
      \<and> snd (authenticate_cipher clib key iv F tbl u pw) = tbl"
    if sel: "select_where_username tbl u = user # rest" and pres: "\<not> js_not (password user)"
  proof -
    obtain stored where st: "password user = Some stored" "stored \<noteq> []"
      using pres js_not_cases by blast
    show ?thesis
      by (simp add: authenticate_present [OF sel st] authenticate_cipher_present [OF sel st])
  qed
  have unknown: "snd (authenticate lib cfg F rnd tbl u pw) = tbl
      \<and> snd (authenticate_cipher clib key iv F tbl u pw) = tbl"
    if "select_where_username tbl u = []"
    using that by (simp add: authenticate_empty authenticate_cipher_empty)
  show ?thesis
    using present unknown authenticate_post [of lib cfg F rnd tbl u pw]
      authenticate_cipher_post [of clib key iv F tbl u pw]
    by blast
qed

theorem nonempty_secret_means_no_write_witness:
  "snd (authenticate bcrypt72 None {} ''seed'' [alice\<lparr>password := Some ''ivhunter2=''\<rparr>]
          ''alice'' ''wrong'') = [alice\<lparr>password := Some ''ivhunter2=''\<rparr>]
   \<and> snd (authenticate_cipher plain_crypto ''k'' ''iv'' {} [alice\<lparr>password := Some ''ivhunter2=''\<rparr>]
          ''alice'' ''wrong'') = [alice\<lparr>password := Some ''ivhunter2=''\<rparr>]"
proof -
  let ?r = "alice\<lparr>password := Some ''ivhunter2=''\<rparr>"
  have sel: "select_where_username [?r] ''alice'' = ?r # []"
    by (simp add: select_where_username_def alice_fields)
  have pres: "\<not> js_not (password ?r)"
    by (simp add: js_not_def)
  show ?thesis
    using nonempty_secret_means_no_write [THEN conjunct1, rule_format, OF conjI [OF sel pres],
        where lib = bcrypt72 and cfg = None and F = "{}" and rnd = "''seed''" and pw = "''wrong''"
          and clib = plain_crypto and key = "''k''" and iv = "''iv''"] .
qed

end
